theory Spec2Isabelle
  imports Main "HOL-Library.Word" "HOL-Library.AList" "HOL-Library.Sublist"
begin

section \<open>Data model of the block request manager (package netsync)\<close>

text \<open>
  \<open>common.Hash\<close> is a 32-byte array. Its renderings \<open>String()\<close> and \<open>Hex()\<close> are
  the same injective hex string, so a hash and the string used as map key or locator
  entry are identified here. Wall-clock instants and durations are nanosecond counts.
\<close>

type_synonym hash = nat
type_synonym peerID = string
type_synonym tx = "8 word list"
type_synonym timestamp = int
type_synonym addr = nat

text \<open>
  Modelled from the spec: the package \<open>core\<close> is not part of the sources. A block header
  carries the fields the request manager reads (\<open>Parent\<close>, \<open>Height\<close>, \<open>TxHash\<close>);
  \<open>hdrHash\<close> holds the value the method \<open>Hash()\<close> returns for it. A \<open>core.Block\<close> embeds
  its header and the transaction list, an \<open>ExtendedBlock\<close> adds the chain store's
  status (only \<open>Status.IsPending()\<close> is read) and the hashes of the known children.
\<close>

record BlockHeader =
  hdrHash :: hash
  Parent :: hash
  Height :: "64 word"
  TxHash :: hash

record Block =
  bheader :: BlockHeader
  Txs :: "tx list"

record ExtendedBlock =
  ebBlock :: Block
  IsPending :: bool
  Children :: "hash list"

definition Hash :: "Block \<Rightarrow> hash" where
  "Hash b = hdrHash (bheader b)"

definition RequestTimeout :: int where "RequestTimeout = 10 * 1000000000"
definition Expiration :: int where "Expiration = 300 * 1000000000"
definition RequestQuotaPerSecond :: int where "RequestQuotaPerSecond = 100"

text \<open>
  A Go slice is a window on an array: the array, the offset of the first element, the
  length and the capacity. Slices of one array share its cells. The arrays live in the
  state of the manager below; \<open>elems\<close> reads the elements of a slice.
\<close>

record Slice =
  sArr :: addr
  sOff :: nat
  sLen :: nat
  sCap :: nat

definition elems :: "(addr \<Rightarrow> nat \<Rightarrow> peerID) \<Rightarrow> Slice \<Rightarrow> peerID list" where
  "elems A s = map (\<lambda>i. A (sArr s) (sOff s + i)) [0..<sLen s]"

text \<open>The literal \<open>[]string{}\<close>: no element and no capacity, so no cell is ever read or written.\<close>

definition emptySlice :: Slice where
  "emptySlice = \<lparr> sArr = 0, sOff = 0, sLen = 0, sCap = 0 \<rparr>"

datatype RequestState =
  RequestToSendDataReq | RequestWaitingDataResp | RequestToSendBodyReq | RequestWaitingBodyResp

record PendingBlock =
  hash :: hash
  block :: "Block option"
  header :: "BlockHeader option"
  peers :: Slice
  lastUpdate :: timestamp
  createdAt :: timestamp
  status :: RequestState

text \<open>\<open>NewPendingBlock\<close> keeps the slice it is given: the PendingBlock shares the caller's array.\<close>

definition NewPendingBlock :: "timestamp \<Rightarrow> hash \<Rightarrow> Slice \<Rightarrow> PendingBlock" where
  "NewPendingBlock now x peerIds =
     \<lparr> hash = x, block = None, header = None, peers = peerIds,
       lastUpdate = now, createdAt = now, status = RequestToSendDataReq \<rparr>"

definition HasTimedOut :: "timestamp \<Rightarrow> PendingBlock \<Rightarrow> bool" where
  "HasTimedOut now pb \<longleftrightarrow> now - lastUpdate pb > RequestTimeout"

definition HasExpired :: "timestamp \<Rightarrow> PendingBlock \<Rightarrow> bool" where
  "HasExpired now pb \<longleftrightarrow> now - createdAt pb > Expiration"

definition UpdateTimestamp :: "timestamp \<Rightarrow> PendingBlock \<Rightarrow> PendingBlock" where
  "UpdateTimestamp now pb = pb\<lparr>lastUpdate := now\<rparr>"

text \<open>
  Modelled from the spec: the chain store (package \<open>blockchain\<close>) is not part of the
  sources. It is a finite table from hashes to extended blocks. \<open>FindBlock\<close> returns the
  entry or fails; \<open>FindBlocksByHeight\<close> lists the stored blocks of a height; \<open>AddBlock\<close>
  admits a block: a hash not yet stored gets an entry that is accepted but not yet
  executed (pending) and is recorded among the children of its parent, a stored hash is
  left as it is.
\<close>

type_synonym chainStore = "(hash \<times> ExtendedBlock) list"

definition FindBlock :: "chainStore \<Rightarrow> hash \<Rightarrow> ExtendedBlock option" where
  "FindBlock ch x = map_of ch x"

definition FindBlocksByHeight :: "chainStore \<Rightarrow> 64 word \<Rightarrow> Block list" where
  "FindBlocksByHeight ch i =
     map (\<lambda>kv. ebBlock (snd kv)) (filter (\<lambda>kv. Height (bheader (ebBlock (snd kv))) = i) ch)"

definition chainAddBlock :: "Block \<Rightarrow> chainStore \<Rightarrow> chainStore" where
  "chainAddBlock b ch =
     (case map_of ch (Hash b) of
        Some _ \<Rightarrow> ch
      | None \<Rightarrow>
          (let ch1 = (case map_of ch (Parent (bheader b)) of
                        None \<Rightarrow> ch
                      | Some p \<Rightarrow> AList.update (Parent (bheader b))
                                   (p\<lparr>Children := Children p @ [Hash b]\<rparr>) ch)
           in ch1 @ [(Hash b, \<lparr> ebBlock = b, IsPending = True, Children = [] \<rparr>)]))"

section \<open>Inventory requester\<close>

text \<open>
  The locator loop of \<open>buildInventoryRequest\<close>. \<open>index\<close> is a \<open>uint64\<close>, \<open>step\<close> an
  \<open>int\<close> (64 bits): \<open>step *= 2\<close> wraps, \<open>uint64(step)\<close> keeps the bits, \<open>step <= 0\<close>
  is a signed comparison. Nothing is assumed about the loop coming to an end: a run
  that never leaves the loop has the value \<open>None\<close>.
\<close>

partial_function (option) locatorLoop ::
  "64 word \<Rightarrow> 64 word \<Rightarrow> chainStore \<Rightarrow> 64 word \<Rightarrow> 64 word \<Rightarrow> hash list \<Rightarrow> hash list option"
where
  "locatorLoop tipH lfbH ch index step starts =
     (if index > lfbH then
        (let step' = (if tipH - index \<ge> 10 then step * 2 else step) in
         if step' > index \<or> step' \<le>s 0 then Some starts
         else locatorLoop tipH lfbH ch (index - step') step'
                (starts @ map Hash (FindBlocksByHeight ch index)))
      else Some starts)"

definition buildInventoryRequest ::
  "ExtendedBlock \<Rightarrow> ExtendedBlock \<Rightarrow> chainStore \<Rightarrow> hash list option" where
  "buildInventoryRequest tip lfb ch =
     (case locatorLoop (Height (bheader (ebBlock tip))) (Height (bheader (ebBlock lfb))) ch
             (Height (bheader (ebBlock tip))) 1 []
      of None \<Rightarrow> None
       | Some starts \<Rightarrow> Some (starts @ [Hash (ebBlock lfb)]))"

section \<open>The request manager and what it sends\<close>

text \<open>
  The calls the manager makes on its collaborators are recorded in the order they are
  made: inventory and data requests to the dispatcher (peer list and payload),
  admissions to the chain store, and blocks passed down to consensus.
\<close>

datatype event =
    GetInventory "peerID list" "hash list"
  | GetData "peerID list" "hash list"
  | ChainAddBlock Block
  | PassdownMessage Block

text \<open>A run-time panic ends the process: no state follows it.\<close>

datatype panic = InterfaceConversion | NilDereference | IndexOutOfRange

text \<open>
  The value handed to \<open>HeaderHeap.Push\<close> is an \<open>interface{}\<close>; the two dynamic types
  that reach it are a pointer to a PendingBlock and a pointer to a block header.
\<close>

datatype any = AnyPendingBlock addr | AnyBlockHeader BlockHeader

text \<open>
  PendingBlocks are shared by pointer between the list, the by-hash map and the header
  heap, and are updated in place. \<open>mem\<close> holds the objects, \<open>nextAddr\<close> is the next
  unused address. A list element is created together with its PendingBlock and holds
  nothing else, so both have the same address; it occurs once in the list, and
  \<open>Remove\<close> leaves no occurrence of it. Go maps are association lists with distinct
  keys. \<open>arrays\<close> holds the cells of the string arrays behind all peer slices, those
  of the callers included, \<open>nextArray\<close> is the next array to allocate, and \<open>growCap\<close>
  is the capacity the runtime gives a reallocated array, from the old capacity and the
  length needed.
\<close>

record RequestManager =
  quota :: int
  lastInventoryRequest :: timestamp
  chain :: chainStore
  mem :: "addr \<Rightarrow> PendingBlock"
  nextAddr :: addr
  pendingBlocks :: "addr list"
  pendingBlocksByHash :: "(hash \<times> addr) list"
  pendingBlocksByParent :: "(hash \<times> Block list) list"
  pendingBlocksWithHeader :: "addr list"
  trace :: "event list"
  arrays :: "addr \<Rightarrow> nat \<Rightarrow> peerID"
  nextArray :: addr
  growCap :: "nat \<Rightarrow> nat \<Rightarrow> nat"

definition NewRequestManager :: "chainStore \<Rightarrow> RequestManager" where
  "NewRequestManager ch =
     \<lparr> quota = RequestQuotaPerSecond, lastInventoryRequest = 0, chain = ch,
       mem = (\<lambda>_. NewPendingBlock 0 0 emptySlice), nextAddr = 0,
       pendingBlocks = [], pendingBlocksByHash = [], pendingBlocksByParent = [],
       pendingBlocksWithHeader = [], trace = [],
       arrays = (\<lambda>_ _. []), nextArray = 0, growCap = (\<lambda>c n. max n (2 * c)) \<rparr>"

section \<open>Header heap (container/heap over HeaderHeap)\<close>

definition Less :: "(addr \<Rightarrow> PendingBlock) \<Rightarrow> addr list \<Rightarrow> nat \<Rightarrow> nat \<Rightarrow> panic + bool" where
  "Less m h i j =
     (if length h \<le> i \<or> length h \<le> j then Inl IndexOutOfRange
      else case header (m (h ! i)) of
             None \<Rightarrow> Inl NilDereference
           | Some hi \<Rightarrow>
               (case header (m (h ! j)) of
                  None \<Rightarrow> Inl NilDereference
                | Some hj \<Rightarrow> Inr (Height hi < Height hj)))"

definition Swap :: "addr list \<Rightarrow> nat \<Rightarrow> nat \<Rightarrow> addr list" where
  "Swap h i j = h[i := h ! j, j := h ! i]"

definition HeaderHeap_Push :: "addr list \<Rightarrow> any \<Rightarrow> panic + addr list" where
  "HeaderHeap_Push h x =
     (case x of
        AnyPendingBlock a \<Rightarrow> Inr (h @ [a])
      | AnyBlockHeader _ \<Rightarrow> Inl InterfaceConversion)"

text \<open>
  \<open>up\<close> and \<open>down\<close> of container/heap. The parent index \<open>(j - 1) / 2\<close> is 0 for
  \<open>j = 0\<close> in Go (division truncates), as it is on the naturals.
\<close>

function up :: "(addr \<Rightarrow> PendingBlock) \<Rightarrow> addr list \<Rightarrow> nat \<Rightarrow> panic + addr list" where
  "up m h j =
     (if (j - 1) div 2 = j then Inr h
      else case Less m h j ((j - 1) div 2) of
             Inl e \<Rightarrow> Inl e
           | Inr lt \<Rightarrow> if \<not> lt then Inr h else up m (Swap h ((j - 1) div 2) j) ((j - 1) div 2))"
  by pat_completeness auto
termination
  by (relation "measure (\<lambda>(m, h, j). j)") auto

definition downChild :: "(addr \<Rightarrow> PendingBlock) \<Rightarrow> addr list \<Rightarrow> nat \<Rightarrow> nat \<Rightarrow> panic + nat" where
  "downChild m h i n =
     (if 2 * i + 1 + 1 < n then
        (case Less m h (2 * i + 1 + 1) (2 * i + 1) of
           Inl e \<Rightarrow> Inl e
         | Inr lt \<Rightarrow> Inr (if lt then 2 * i + 1 + 1 else 2 * i + 1))
      else Inr (2 * i + 1))"

function down :: "(addr \<Rightarrow> PendingBlock) \<Rightarrow> addr list \<Rightarrow> nat \<Rightarrow> nat \<Rightarrow> panic + addr list" where
  "down m h i n =
     (if 2 * i + 1 \<ge> n then Inr h
      else case downChild m h i n of
             Inl e \<Rightarrow> Inl e
           | Inr j \<Rightarrow>
               (case Less m h j i of
                  Inl e \<Rightarrow> Inl e
                | Inr lt \<Rightarrow> if \<not> lt then Inr h else down m (Swap h i j) j n))"
  by pat_completeness auto
termination
  by (relation "measure (\<lambda>(m, h, i, n). n - i)")
     (auto simp: downChild_def split: if_splits sum.splits)

declare up.simps [simp del] down.simps [simp del]

definition heap_Push :: "(addr \<Rightarrow> PendingBlock) \<Rightarrow> addr list \<Rightarrow> any \<Rightarrow> panic + addr list" where
  "heap_Push m h x =
     (case HeaderHeap_Push h x of
        Inl e \<Rightarrow> Inl e
      | Inr h' \<Rightarrow> up m h' (length h' - 1))"


section \<open>Scheduler: the two downloaders\<close>





text \<open>
  The walk of \<open>downloadBlockFromHash\<close> over the list, from the element \<open>cur\<close> on: it stops when
  the quota is 0 or the list ends, and returns the elements to remove.
\<close>

fun hashLoop ::
  "timestamp \<Rightarrow> (nat \<Rightarrow> nat) \<Rightarrow> addr list \<Rightarrow> int \<Rightarrow> addr list \<Rightarrow> RequestManager
     \<Rightarrow> addr list \<times> RequestManager"
where
  "hashLoop now rnd [] q elToRemove rm = (elToRemove, rm)"
| "hashLoop now rnd (cur # nexts) q elToRemove rm =
     (if q = 0 then (elToRemove, rm)
      else if HasExpired now (mem rm cur) then
        hashLoop now rnd nexts q (elToRemove @ [cur]) rm
      else if header (mem rm cur) \<noteq> None then
        hashLoop now rnd nexts q elToRemove rm
      else if sLen (peers (mem rm cur)) = 0 then
        hashLoop now rnd nexts q elToRemove rm
      else if status (mem rm cur) = RequestToSendDataReq \<or>
              (status (mem rm cur) = RequestWaitingDataResp \<and> HasTimedOut now (mem rm cur)) then
        hashLoop now rnd nexts (q - 1) elToRemove
          (rm\<lparr>trace := trace rm @
                 [GetData [arrays rm (sArr (peers (mem rm cur)))
                             (sOff (peers (mem rm cur)) +
                              rnd (length (trace rm)) mod sLen (peers (mem rm cur)))]
                          [hash (mem rm cur)]],
              mem := (mem rm)(cur := (UpdateTimestamp now (mem rm cur))\<lparr>status := RequestWaitingDataResp\<rparr>)\<rparr>)
      else hashLoop now rnd nexts q elToRemove rm)"

fun findByHash :: "hash \<Rightarrow> Block list \<Rightarrow> nat option" where
  "findByHash x [] = None"
| "findByHash x (b # bs) =
     (if Hash b = x then Some 0 else map_option Suc (findByHash x bs))"

definition removeEl :: "addr \<Rightarrow> RequestManager \<Rightarrow> RequestManager" where
  "removeEl el rm =
     (let pendingBlock = mem rm el;
          rm1 = rm\<lparr>pendingBlocksByHash := AList.delete (hash pendingBlock) (pendingBlocksByHash rm)\<rparr>;
          rm2 =
            (case block pendingBlock of
               None \<Rightarrow> rm1
             | Some b \<Rightarrow>
                 (case map_of (pendingBlocksByParent rm1) (Parent (bheader b)) of
                    None \<Rightarrow> rm1
                  | Some blocks \<Rightarrow>
                      (let byParent1 =
                             (case findByHash (Hash b) blocks of
                                None \<Rightarrow> pendingBlocksByParent rm1
                              | Some found \<Rightarrow>
                                  AList.update (Parent (bheader b))
                                    (take found blocks @ drop (found + 1) blocks)
                                    (pendingBlocksByParent rm1));
                           byParent2 =
                             (if map_of byParent1 (Parent (bheader b)) = Some []
                              then AList.delete (Parent (bheader b)) byParent1
                              else byParent1)
                       in rm1\<lparr>pendingBlocksByParent := byParent2\<rparr>)))
      in rm2\<lparr>pendingBlocks := removeAll el (pendingBlocks rm2)\<rparr>)"




section \<open>Ingest handlers\<close>

text \<open>
  \<open>append(pendingBlock.peers, xid)\<close>: with spare capacity the element is written into
  the cell after the slice, in the array the slice shares; otherwise a new array is
  allocated, with the elements copied.
\<close>

definition appendPeer :: "addr \<Rightarrow> peerID \<Rightarrow> RequestManager \<Rightarrow> RequestManager" where
  "appendPeer el xid rm =
     (if sLen (peers (mem rm el)) < sCap (peers (mem rm el)) then
        rm\<lparr>arrays := (arrays rm)
                 (sArr (peers (mem rm el)) :=
                    (arrays rm (sArr (peers (mem rm el))))
                      (sOff (peers (mem rm el)) + sLen (peers (mem rm el)) := xid)),
            mem := (mem rm)
                 (el := (mem rm el)
                    \<lparr>peers := (peers (mem rm el))\<lparr>sLen := sLen (peers (mem rm el)) + 1\<rparr>\<rparr>)\<rparr>
      else
        rm\<lparr>arrays := (arrays rm)
                 (nextArray rm :=
                    (\<lambda>j. if j < sLen (peers (mem rm el))
                         then arrays rm (sArr (peers (mem rm el))) (sOff (peers (mem rm el)) + j)
                         else if j = sLen (peers (mem rm el)) then xid else [])),
            nextArray := nextArray rm + 1,
            mem := (mem rm)
                 (el := (mem rm el)
                    \<lparr>peers := \<lparr> sArr = nextArray rm, sOff = 0,
                                sLen = sLen (peers (mem rm el)) + 1,
                                sCap = growCap rm (sCap (peers (mem rm el)))
                                         (sLen (peers (mem rm el)) + 1) \<rparr>\<rparr>)\<rparr>)"

text \<open>
  The loop of \<open>addHash\<close> over \<open>peerIDs\<close>, from index \<open>i\<close> on. The element is read
  when its turn comes; it is appended when the search through the peers of the
  PendingBlock does not find it.
\<close>

function unionLoop :: "Slice \<Rightarrow> nat \<Rightarrow> addr \<Rightarrow> RequestManager \<Rightarrow> RequestManager" where
  "unionLoop peerIDs i el rm =
     (if i < sLen peerIDs then
        (if arrays rm (sArr peerIDs) (sOff peerIDs + i) \<in> set (elems (arrays rm) (peers (mem rm el)))
         then unionLoop peerIDs (i + 1) el rm
         else unionLoop peerIDs (i + 1) el
                (appendPeer el (arrays rm (sArr peerIDs) (sOff peerIDs + i)) rm))
      else rm)"
  by pat_completeness auto
termination
  by (relation "measure (\<lambda>(peerIDs, i, el, rm). sLen peerIDs - i)") auto

declare unionLoop.simps [simp del]

definition addHash :: "timestamp \<Rightarrow> hash \<Rightarrow> Slice \<Rightarrow> RequestManager \<Rightarrow> RequestManager" where
  "addHash now x peerIDs rm =
     (case FindBlock (chain rm) x of
        Some _ \<Rightarrow> rm
      | None \<Rightarrow>
          (let rm1 =
                 (case map_of (pendingBlocksByHash rm) x of
                    Some _ \<Rightarrow> rm
                  | None \<Rightarrow>
                      rm\<lparr>mem := (mem rm)(nextAddr rm := NewPendingBlock now x peerIDs),
                         nextAddr := nextAddr rm + 1,
                         pendingBlocks := pendingBlocks rm @ [nextAddr rm],
                         pendingBlocksByHash := AList.update x (nextAddr rm) (pendingBlocksByHash rm)\<rparr>)
           in case map_of (pendingBlocksByHash rm1) x of
                None \<Rightarrow> rm1
              | Some el \<Rightarrow>
                  if block (mem rm1 el) \<noteq> None then rm1
                  else unionLoop peerIDs 0 el rm1))"

definition AddHash :: "timestamp \<Rightarrow> hash \<Rightarrow> Slice \<Rightarrow> RequestManager \<Rightarrow> RequestManager" where
  "AddHash now x peerIDs rm = addHash now x peerIDs rm"

definition AddHeader :: "timestamp \<Rightarrow> BlockHeader \<Rightarrow> RequestManager \<Rightarrow> panic + RequestManager" where
  "AddHeader now hdr rm =
     (case FindBlock (chain rm) (hdrHash hdr) of
        Some _ \<Rightarrow> Inr rm
      | None \<Rightarrow>
          (let rm1 = (if map_of (pendingBlocksByHash rm) (hdrHash hdr) = None
                      then addHash now (hdrHash hdr) emptySlice rm else rm);
               rm2 = (case map_of (pendingBlocksByHash rm1) (hdrHash hdr) of
                        None \<Rightarrow> rm1
                      | Some el \<Rightarrow>
                          rm1\<lparr>mem := (mem rm1)(el := (mem rm1 el)\<lparr>header := Some hdr,
                                                                  status := RequestToSendBodyReq\<rparr>)\<rparr>)
           in case heap_Push (mem rm2) (pendingBlocksWithHeader rm2) (AnyBlockHeader hdr) of
                Inl e \<Rightarrow> Inl e
              | Inr h' \<Rightarrow> Inr (rm2\<lparr>pendingBlocksWithHeader := h'\<rparr>)))"

section \<open>Promotion\<close>

text \<open>One round of the queue loop of \<open>dumpReadyBlocks\<close>, for the block taken from the front.\<close>

definition dumpStep :: "Block \<Rightarrow> Block list \<Rightarrow> RequestManager \<Rightarrow> Block list \<times> RequestManager" where
  "dumpStep b queue rm =
     (let queue1 = (case map_of (pendingBlocksByParent rm) (Hash b) of
                      Some children \<Rightarrow> queue @ children
                    | None \<Rightarrow> queue);
          rm1 = (case map_of (pendingBlocksByParent rm) (Hash b) of
                   Some children \<Rightarrow>
                     rm\<lparr>pendingBlocksByParent := AList.delete (Hash b) (pendingBlocksByParent rm)\<rparr>
                 | None \<Rightarrow> rm);
          rm2 = (case map_of (pendingBlocksByHash rm1) (Hash b) of
                   Some pendingBlockEl \<Rightarrow>
                     rm1\<lparr>pendingBlocks := removeAll pendingBlockEl (pendingBlocks rm1),
                         pendingBlocksByHash := AList.delete (Hash b) (pendingBlocksByHash rm1)\<rparr>
                 | None \<Rightarrow> rm1)
      in (queue1,
          rm2\<lparr>chain := chainAddBlock b (chain rm2),
              trace := trace rm2 @ [ChainAddBlock b, PassdownMessage b]\<rparr>))"

definition parked :: "(hash \<times> Block list) list \<Rightarrow> nat" where
  "parked byParent = sum_list (map (\<lambda>kv. length (snd kv)) byParent)"

function dumpLoop :: "Block list \<Rightarrow> RequestManager \<Rightarrow> RequestManager" where
  "dumpLoop [] rm = rm"
| "dumpLoop (b # queue) rm =
     (case dumpStep b queue rm of (queue1, rm1) \<Rightarrow> dumpLoop queue1 rm1)"
  by pat_completeness auto
termination
proof (relation "measure (\<lambda>(queue, rm). length queue + parked (pendingBlocksByParent rm))")
  have del_le: "parked (AList.delete k al) \<le> parked al" for k :: hash and al
    by (induction al) (auto simp: parked_def)
  have del: "parked (AList.delete k al) + length v \<le> parked al" if "map_of al k = Some v"
    for k :: hash and al v
    using that
  proof (induction al)
    case Nil
    then show ?case by simp
  next
    case (Cons kv al)
    show ?case
    proof (cases "fst kv = k")
      case True
      with Cons.prems have "snd kv = v" by (cases kv) simp
      with True del_le [of k al] show ?thesis by (cases kv) (simp add: parked_def)
    next
      case False
      with Cons.prems have "map_of al k = Some v" by (cases kv) simp
      from Cons.IH [OF this] False show ?thesis by (cases kv) (simp add: parked_def)
    qed
  qed
  show "wf (measure (\<lambda>(queue, rm). length queue + parked (pendingBlocksByParent rm)))" by simp
  fix b :: Block and queue rm queue1 rm1
  assume "(queue1, rm1) = dumpStep b queue rm"
  then have st: "dumpStep b queue rm = (queue1, rm1)" by simp
  show "((queue1, rm1), b # queue, rm)
      \<in> measure (\<lambda>(queue, rm). length queue + parked (pendingBlocksByParent rm))"
  proof (cases "map_of (pendingBlocksByParent rm) (Hash b)")
    case None
    with st have "queue1 = queue" and "pendingBlocksByParent rm1 = pendingBlocksByParent rm"
      by (auto simp: dumpStep_def Let_def split: option.splits)
    then show ?thesis by simp
  next
    case (Some children)
    with st have "queue1 = queue @ children"
      and "pendingBlocksByParent rm1 = AList.delete (Hash b) (pendingBlocksByParent rm)"
      by (auto simp: dumpStep_def Let_def split: option.splits)
    with del [OF Some] show ?thesis by simp
  qed
qed

definition dumpReadyBlocks :: "Block \<Rightarrow> RequestManager \<Rightarrow> RequestManager" where
  "dumpReadyBlocks b rm = dumpLoop [b] rm"

text \<open>
  \<open>AddBlock\<close>. \<open>CalculateRootHash\<close> of package \<open>core\<close> is a parameter.
  \<open>attachBody\<close> is the first part of the handler, up to the assignment of the body; its
  flag is \<open>False\<close> when the handler returns there, the root of the transactions being
  different from the one of an attached header.
\<close>

definition attachBody ::
  "(tx list \<Rightarrow> hash) \<Rightarrow> timestamp \<Rightarrow> Block \<Rightarrow> RequestManager \<Rightarrow> bool \<times> RequestManager" where
  "attachBody CalculateRootHash now b rm =
     (let rm1 = (if map_of (pendingBlocksByHash rm) (Hash b) = None
                 then addHash now (Hash b) emptySlice rm else rm)
      in case map_of (pendingBlocksByHash rm1) (Hash b) of
           None \<Rightarrow> (True, rm1)
         | Some el \<Rightarrow>
             (case header (mem rm1 el) of
                None \<Rightarrow> (True, rm1\<lparr>mem := (mem rm1)(el := (mem rm1 el)\<lparr>block := Some b\<rparr>)\<rparr>)
              | Some hdr \<Rightarrow>
                  if CalculateRootHash (Txs b) \<noteq> TxHash hdr then (False, rm1)
                  else (True, rm1\<lparr>mem := (mem rm1)(el := (mem rm1 el)\<lparr>block := Some b\<rparr>)\<rparr>)))"

definition parkUnder :: "Block \<Rightarrow> Block list \<Rightarrow> Block list" where
  "parkUnder b byParents =
     (if \<exists>child \<in> set byParents. Hash child = Hash b then byParents else byParents @ [b])"

definition AddBlock ::
  "(tx list \<Rightarrow> hash) \<Rightarrow> timestamp \<Rightarrow> Block \<Rightarrow> RequestManager \<Rightarrow> RequestManager" where
  "AddBlock CalculateRootHash now b rm =
     (case attachBody CalculateRootHash now b rm of
        (False, rm1) \<Rightarrow> rm1
      | (True, rm2) \<Rightarrow>
          (case FindBlock (chain rm2) (Parent (bheader b)) of
             Some _ \<Rightarrow> dumpReadyBlocks b rm2
           | None \<Rightarrow>
               rm2\<lparr>pendingBlocksByParent :=
                     AList.update (Parent (bheader b))
                       (parkUnder b (case map_of (pendingBlocksByParent rm2) (Parent (bheader b)) of
                                       None \<Rightarrow> []
                                     | Some bs \<Rightarrow> bs))
                       (pendingBlocksByParent rm2)\<rparr>))"


section \<open>Reachable states\<close>


section \<open>Notions used by the properties\<close>

text \<open>The number of data requests among recorded calls.\<close>

fun countGetData :: "event list \<Rightarrow> nat" where
  "countGetData [] = 0"
| "countGetData (GetData ps es # evs) = Suc (countGetData evs)"
| "countGetData (_ # evs) = countGetData evs"





text \<open>
  The blocks handed to the chain store among recorded calls, in order. A chain of
  blocks is linked when each one but the first is parked under the hash of the one
  before it. \<open>parkedBlocks\<close> lists all parked blocks; \<open>admittedBy\<close> gives the blocks
  admitted between two states of a run.
\<close>

fun admitted :: "event list \<Rightarrow> Block list" where
  "admitted [] = []"
| "admitted (ChainAddBlock b # evs) = b # admitted evs"
| "admitted (_ # evs) = admitted evs"

fun linked :: "(hash \<times> Block list) list \<Rightarrow> Block list \<Rightarrow> bool" where
  "linked byParent (c # d # bs) =
     ((case map_of byParent (Hash c) of None \<Rightarrow> False | Some children \<Rightarrow> d \<in> set children) \<and>
      linked byParent (d # bs))"
| "linked byParent _ = True"

definition parkedBlocks :: "(hash \<times> Block list) list \<Rightarrow> Block list" where
  "parkedBlocks byParent = concat (map snd byParent)"

definition admittedBy :: "RequestManager \<Rightarrow> RequestManager \<Rightarrow> Block list" where
  "admittedBy rm rm' = drop (length (admitted (trace rm))) (admitted (trace rm'))"






section \<open>Concrete inputs\<close>

definition mkHeader :: "hash \<Rightarrow> hash \<Rightarrow> 64 word \<Rightarrow> hash \<Rightarrow> BlockHeader" where
  "mkHeader x p ht r = \<lparr> hdrHash = x, Parent = p, Height = ht, TxHash = r \<rparr>"

definition mkBlock :: "hash \<Rightarrow> hash \<Rightarrow> 64 word \<Rightarrow> Block" where
  "mkBlock x p ht = \<lparr> bheader = mkHeader x p ht 0, Txs = [] \<rparr>"

definition mkExtended :: "bool \<Rightarrow> Block \<Rightarrow> ExtendedBlock" where
  "mkExtended pend b = \<lparr> ebBlock = b, IsPending = pend, Children = [] \<rparr>"

text \<open>A chain store whose only block, of hash 10, is pending.\<close>

definition pendingParentStore :: chainStore where
  "pendingParentStore = [(10, mkExtended True (mkBlock 10 9 1))]"

text \<open>A chain store that holds the blocks of hash 10 and 11, both executed.\<close>

definition admittedStore :: chainStore where
  "admittedStore = [(10, mkExtended False (mkBlock 10 9 1)), (11, mkExtended False (mkBlock 11 10 2))]"

text \<open>
  A manager with one PendingBlock, of hash 11, to which a header with transaction
  root 1 is attached.
\<close>

definition headerAttached :: RequestManager where
  "headerAttached =
     (NewRequestManager [])
       \<lparr> mem := (\<lambda>a. if a = 0
                     then (NewPendingBlock 0 11 emptySlice)\<lparr>header := Some (mkHeader 11 10 2 1),
                                                  status := RequestToSendBodyReq\<rparr>
                     else NewPendingBlock 0 0 emptySlice),
         nextAddr := 1, pendingBlocks := [0], pendingBlocksByHash := [(11, 0)] \<rparr>"

text \<open>
  The memory of a caller: a new manager beside four arrays of peer identifiers. Array
  0 has room for four and holds \<open>p\<close>; arrays 1 and 2 hold \<open>q\<close> and \<open>r\<close>; array 3 holds
  \<open>p\<close> twice. The slices are \<open>make([]string, 1, 4)\<close> with \<open>p\<close> stored, \<open>[q]\<close>, \<open>[r]\<close>
  and \<open>[p, p]\<close>.
\<close>

definition callerMemory :: RequestManager where
  "callerMemory =
     (NewRequestManager [])
       \<lparr>arrays := (\<lambda>a i. if a = 0 \<and> i = 0 then ''p''
                        else if a = 1 \<and> i = 0 then ''q''
                        else if a = 2 \<and> i = 0 then ''r''
                        else if a = 3 \<and> i < 2 then ''p'' else []),
        nextArray := 4\<rparr>"

definition sliceP :: Slice where "sliceP = \<lparr> sArr = 0, sOff = 0, sLen = 1, sCap = 4 \<rparr>"




text \<open>
  The second scenario of out-of-order bodies: block 10 is stored, the bodies of blocks
  13 and 12 have arrived and are parked.
\<close>

definition outOfOrder :: RequestManager where
  "outOfOrder =
     AddBlock (\<lambda>txs. 0) 0 (mkBlock 12 11 3)
       (AddBlock (\<lambda>txs. 0) 0 (mkBlock 13 12 4)
          (NewRequestManager [(10, mkExtended False (mkBlock 10 9 1))]))"





section \<open>Properties\<close>

subsection \<open>Inventory locator\<close>

lemma locatorLoop_returns:
  "\<exists>r. locatorLoop tipH lfbH ch index step starts = Some r"
proof (induction "unat index" arbitrary: index step starts rule: less_induct)
  case less
  show ?case
  proof (cases "index > lfbH")
    case False
    then show ?thesis by (subst locatorLoop.simps) simp
  next
    case True
    define step' where "step' = (if tipH - index \<ge> 10 then step * 2 else step)"
    show ?thesis
    proof (cases "step' > index \<or> step' \<le>s 0")
      case True
      with \<open>index > lfbH\<close> show ?thesis
        by (subst locatorLoop.simps) (simp add: step'_def Let_def)
    next
      case False
      then have le: "step' \<le> index" and nz: "step' \<noteq> 0" by (auto simp: word_sle_eq)
      have "unat (index - step') = unat index - unat step'"
        using le by (simp add: unat_sub)
      moreover have "0 < unat step'" using nz by (simp add: unat_gt_0)
      moreover have "unat step' \<le> unat index" using le by (simp add: word_le_nat_alt)
      ultimately have "unat (index - step') < unat index" by linarith
      from less [OF this] obtain r where
        "locatorLoop tipH lfbH ch (index - step') step'
            (starts @ map Hash (FindBlocksByHeight ch index)) = Some r" by blast
      with False \<open>index > lfbH\<close> show ?thesis
        by (subst locatorLoop.simps) (simp add: step'_def Let_def)
    qed
  qed
qed


text \<open>
  C10. \<open>buildInventoryRequest\<close> returns for every tip and last finalized block: a round
  of the locator loop that does not leave it lowers the index by a step of at least 1
  that does not exceed it, so the unsigned value of the index is a variant.
\<close>

theorem buildInventoryRequest_terminates:
  "\<exists>starts. buildInventoryRequest tip lfb ch = Some starts"
proof -
  obtain r where "locatorLoop (Height (bheader (ebBlock tip))) (Height (bheader (ebBlock lfb))) ch
             (Height (bheader (ebBlock tip))) 1 [] = Some r"
    using locatorLoop_returns by blast
  then show ?thesis by (simp add: buildInventoryRequest_def)
qed

text \<open>
  C9. When the height of the tip is at most that of the last finalized block, the
  locator list is exactly the hash of the last finalized block; for every tip and last
  finalized block the list is returned and its last entry is that hash.
\<close>

theorem buildInventoryRequest_locator:
  "(Height (bheader (ebBlock tip)) \<le> Height (bheader (ebBlock lfb)) \<longrightarrow>
      buildInventoryRequest tip lfb ch = Some [Hash (ebBlock lfb)]) \<and>
   (\<exists>starts. buildInventoryRequest tip lfb ch = Some starts \<and> last starts = Hash (ebBlock lfb))"
proof
  show "Height (bheader (ebBlock tip)) \<le> Height (bheader (ebBlock lfb)) \<longrightarrow>
      buildInventoryRequest tip lfb ch = Some [Hash (ebBlock lfb)]"
  proof
    assume "Height (bheader (ebBlock tip)) \<le> Height (bheader (ebBlock lfb))"
    then have "\<not> Height (bheader (ebBlock tip)) > Height (bheader (ebBlock lfb))" by simp
    then show "buildInventoryRequest tip lfb ch = Some [Hash (ebBlock lfb)]"
      unfolding buildInventoryRequest_def by (subst locatorLoop.simps) simp
  qed
  obtain r where "locatorLoop (Height (bheader (ebBlock tip))) (Height (bheader (ebBlock lfb))) ch
             (Height (bheader (ebBlock tip))) 1 [] = Some r"
    using locatorLoop_returns by blast
  then show "\<exists>starts. buildInventoryRequest tip lfb ch = Some starts \<and> last starts = Hash (ebBlock lfb)"
    by (simp add: buildInventoryRequest_def)
qed

theorem buildInventoryRequest_locator_witness:
  "Height (bheader (ebBlock (mkExtended False (mkBlock 7 6 5))))
     \<le> Height (bheader (ebBlock (mkExtended False (mkBlock 7 6 5)))) \<and>
   buildInventoryRequest (mkExtended False (mkBlock 7 6 5)) (mkExtended False (mkBlock 7 6 5)) []
     = Some [7]"
  using buildInventoryRequest_locator
          [of "mkExtended False (mkBlock 7 6 5)" "mkExtended False (mkBlock 7 6 5)" "[]"]
  by (simp add: mkExtended_def mkBlock_def mkHeader_def Hash_def)

subsection \<open>AddHeader\<close>

lemma AddHeader_unknown_panics:
  "FindBlock (chain rm) (hdrHash hdr) = None \<Longrightarrow> AddHeader now hdr rm = Inl InterfaceConversion"
  by (simp add: AddHeader_def heap_Push_def HeaderHeap_Push_def Let_def)


text \<open>
  C2. \<open>AddHeader\<close> with a header whose hash is not in the chain store does not push
  the PendingBlock onto the header heap: it hands the header itself to
  \<open>HeaderHeap.Push\<close>, whose conversion to a PendingBlock panics. Here for the header
  of hash 1 and a new manager with an empty chain store.
\<close>

theorem AddHeader_new_hash_panics:
  "FindBlock (chain (NewRequestManager [])) (hdrHash (mkHeader 1 0 1 0)) = None \<and>
   AddHeader 0 (mkHeader 1 0 1 0) (NewRequestManager []) = Inl InterfaceConversion"
  by (simp add: AddHeader_def heap_Push_def HeaderHeap_Push_def Let_def FindBlock_def
        NewRequestManager_def mkHeader_def)

subsection \<open>AddHash\<close>



lemma appendPeer_fields:
  "nextArray rm \<le> nextArray (appendPeer el x rm)"
  "chain (appendPeer el x rm) = chain rm"
  "pendingBlocksByHash (appendPeer el x rm) = pendingBlocksByHash rm"
  "pendingBlocksByParent (appendPeer el x rm) = pendingBlocksByParent rm"
  "pendingBlocks (appendPeer el x rm) = pendingBlocks rm"
  "pendingBlocksWithHeader (appendPeer el x rm) = pendingBlocksWithHeader rm"
  "trace (appendPeer el x rm) = trace rm"
  "quota (appendPeer el x rm) = quota rm"
  "lastInventoryRequest (appendPeer el x rm) = lastInventoryRequest rm"
  "block (mem (appendPeer el x rm) a) = block (mem rm a)"
  "header (mem (appendPeer el x rm) a) = header (mem rm a)"
  "status (mem (appendPeer el x rm) a) = status (mem rm a)"
  by (simp_all add: appendPeer_def)

lemma unionLoop_fields:
  "chain (unionLoop P i el rm) = chain rm \<and>
   pendingBlocksByHash (unionLoop P i el rm) = pendingBlocksByHash rm \<and>
   pendingBlocksByParent (unionLoop P i el rm) = pendingBlocksByParent rm \<and>
   pendingBlocks (unionLoop P i el rm) = pendingBlocks rm \<and>
   pendingBlocksWithHeader (unionLoop P i el rm) = pendingBlocksWithHeader rm \<and>
   trace (unionLoop P i el rm) = trace rm \<and>
   quota (unionLoop P i el rm) = quota rm \<and>
   lastInventoryRequest (unionLoop P i el rm) = lastInventoryRequest rm \<and>
   (\<forall>a. block (mem (unionLoop P i el rm) a) = block (mem rm a) \<and>
        header (mem (unionLoop P i el rm) a) = header (mem rm a) \<and>
        status (mem (unionLoop P i el rm) a) = status (mem rm a))"
proof (induction P i el rm rule: unionLoop.induct)
  case (1 P i el rm)
  show ?case
  proof (cases "i < sLen P")
    case False
    then show ?thesis by (simp add: unionLoop.simps [of P i el rm])
  next
    case True
    show ?thesis
    proof (cases "arrays rm (sArr P) (sOff P + i) \<in> set (elems (arrays rm) (peers (mem rm el)))")
      case found: True
      with True "1.IH"(1) show ?thesis by (simp add: unionLoop.simps [of P i el rm])
    next
      case nf: False
      with True "1.IH"(2) show ?thesis
        by (simp add: unionLoop.simps [of P i el rm] appendPeer_fields)
    qed
  qed
qed










subsection \<open>Ingest of an admitted block\<close>

text \<open>
  C4, as amended. For a hash that is in the chain store, \<open>AddHash\<close> and \<open>AddHeader\<close>
  return the state as it is: indexes, heap, chain store and the record of calls.
\<close>

theorem ingest_of_admitted_hash_is_noop:
  "FindBlock (chain rm) (hdrHash hdr) \<noteq> None \<Longrightarrow>
   AddHash now (hdrHash hdr) peerIDs rm = rm \<and> AddHeader now hdr rm = Inr rm"
  by (auto simp: AddHash_def addHash_def AddHeader_def)

theorem ingest_of_admitted_hash_is_noop_witness:
  "FindBlock (chain (callerMemory\<lparr>chain := admittedStore\<rparr>)) (hdrHash (mkHeader 11 10 2 0)) \<noteq> None \<and>
   AddHash 0 (hdrHash (mkHeader 11 10 2 0)) sliceP (callerMemory\<lparr>chain := admittedStore\<rparr>)
     = callerMemory\<lparr>chain := admittedStore\<rparr> \<and>
   AddHeader 0 (mkHeader 11 10 2 0) (callerMemory\<lparr>chain := admittedStore\<rparr>)
     = Inr (callerMemory\<lparr>chain := admittedStore\<rparr>)"
proof -
  have h: "FindBlock (chain (callerMemory\<lparr>chain := admittedStore\<rparr>)) (hdrHash (mkHeader 11 10 2 0)) \<noteq> None"
    by (simp add: FindBlock_def admittedStore_def mkHeader_def)
  from ingest_of_admitted_hash_is_noop [OF h] h show ?thesis by simp
qed

text \<open>
  C4, counterexample. \<open>AddBlock\<close> has no check of the chain store for the block itself.
  With the blocks 10 and 11 admitted, \<open>AddBlock\<close> of block 11, whose parent 10 is
  stored, admits it again and passes it down; \<open>AddBlock\<close> of block 10, whose parent 9
  is not stored, parks it under its parent.
\<close>

theorem AddBlock_of_admitted_block_not_noop:
  "FindBlock (chain (NewRequestManager admittedStore)) (Hash (mkBlock 11 10 2)) \<noteq> None \<and>
   trace (NewRequestManager admittedStore) = [] \<and>
   trace (AddBlock (\<lambda>txs. 0) 0 (mkBlock 11 10 2) (NewRequestManager admittedStore))
     = [ChainAddBlock (mkBlock 11 10 2), PassdownMessage (mkBlock 11 10 2)] \<and>
   FindBlock (chain (NewRequestManager admittedStore)) (Hash (mkBlock 10 9 1)) \<noteq> None \<and>
   pendingBlocksByParent (NewRequestManager admittedStore) = [] \<and>
   pendingBlocksByParent (AddBlock (\<lambda>txs. 0) 0 (mkBlock 10 9 1) (NewRequestManager admittedStore))
     = [(9, [mkBlock 10 9 1])]"
  by (simp add: AddBlock_def attachBody_def addHash_def dumpReadyBlocks_def dumpStep_def chainAddBlock_def
        FindBlock_def NewRequestManager_def admittedStore_def mkExtended_def mkBlock_def
        mkHeader_def Hash_def parkUnder_def Let_def)

subsection \<open>AddBlock\<close>

lemma addHash_frame:
  "chain (addHash now x ps rm) = chain rm"
  "pendingBlocksByParent (addHash now x ps rm) = pendingBlocksByParent rm"
  "trace (addHash now x ps rm) = trace rm"
  "pendingBlocksWithHeader (addHash now x ps rm) = pendingBlocksWithHeader rm"
  "quota (addHash now x ps rm) = quota rm"
  "lastInventoryRequest (addHash now x ps rm) = lastInventoryRequest rm"
  by (simp_all add: addHash_def Let_def unionLoop_fields split: option.splits)

lemma attachBody_frame:
  assumes "attachBody CalculateRootHash now b rm = (ok, rm2)"
  shows "chain rm2 = chain rm" and "pendingBlocksByParent rm2 = pendingBlocksByParent rm"
    and "trace rm2 = trace rm" and "pendingBlocksWithHeader rm2 = pendingBlocksWithHeader rm"
  using assms
  by (auto simp: attachBody_def Let_def addHash_frame split: option.splits if_splits)

text \<open>
  C7. When the PendingBlock of the block's hash has a header and the root of the
  block's transactions differs from the header's, \<open>AddBlock\<close> returns the state as it
  is: no body attached, nothing parked, nothing promoted, peers as they were.
\<close>

theorem AddBlock_tx_root_mismatch:
  "map_of (pendingBlocksByHash rm) (Hash b) = Some el \<Longrightarrow> header (mem rm el) = Some hdr \<Longrightarrow>
   CalculateRootHash (Txs b) \<noteq> TxHash hdr \<Longrightarrow>
   AddBlock CalculateRootHash now b rm = rm"
  by (simp add: AddBlock_def attachBody_def Let_def)

theorem AddBlock_tx_root_mismatch_witness:
  "map_of (pendingBlocksByHash headerAttached) (Hash (mkBlock 11 10 2)) = Some 0 \<and>
   header (mem headerAttached 0) = Some (mkHeader 11 10 2 1) \<and>
   (\<lambda>txs. 0) (Txs (mkBlock 11 10 2)) \<noteq> TxHash (mkHeader 11 10 2 1) \<and>
   AddBlock (\<lambda>txs. 0) 5 (mkBlock 11 10 2) headerAttached = headerAttached"
proof -
  have a: "map_of (pendingBlocksByHash headerAttached) (Hash (mkBlock 11 10 2)) = Some 0"
    by (simp add: headerAttached_def NewRequestManager_def Hash_def mkBlock_def mkHeader_def)
  have b: "header (mem headerAttached 0) = Some (mkHeader 11 10 2 1)"
    by (simp add: headerAttached_def NewRequestManager_def)
  have c: "(\<lambda>txs. 0) (Txs (mkBlock 11 10 2)) \<noteq> TxHash (mkHeader 11 10 2 1)"
    by (simp add: mkHeader_def)
  from AddBlock_tx_root_mismatch [OF a b c] a b c show ?thesis by blast
qed

subsection \<open>Request quota of a tick\<close>

lemma countGetData_append [simp]: "countGetData (xs @ ys) = countGetData xs + countGetData ys"
  by (induction xs rule: countGetData.induct) auto

lemma removeEl_trace [simp]: "trace (removeEl el rm) = trace rm"
  by (simp add: removeEl_def Let_def split: option.splits)

lemma fold_removeEl_trace [simp]: "trace (fold removeEl els rm) = trace rm"
  by (induction els arbitrary: rm) auto











lemma hashLoop_Nil: "snd (hashLoop now rnd [] q rem rm) = rm"
  by simp




lemma removeEl_mem [simp]: "mem (removeEl el rm) = mem rm"
  by (simp add: removeEl_def Let_def split: option.splits)

lemma fold_removeEl_mem [simp]: "mem (fold removeEl els rm) = mem rm"
  by (induction els arbitrary: rm) auto

lemma removeEl_heap [simp]: "pendingBlocksWithHeader (removeEl el rm) = pendingBlocksWithHeader rm"
  by (simp add: removeEl_def Let_def split: option.splits)

lemma fold_removeEl_heap [simp]:
  "pendingBlocksWithHeader (fold removeEl els rm) = pendingBlocksWithHeader rm"
  by (induction els arbitrary: rm) auto













subsection \<open>Status and fields of a PendingBlock\<close>






subsection \<open>Promotion\<close>

lemma admitted_append [simp]: "admitted (xs @ ys) = admitted xs @ admitted ys"
  by (induction xs rule: admitted.induct) auto


lemma parked_member: "map_of bp k = Some l \<Longrightarrow> x \<in> set l \<Longrightarrow> x \<in> set (parkedBlocks bp)"
  by (induction bp) (auto simp: parkedBlocks_def split: if_splits)


lemma linked_parked: "linked bp (c # cs) \<Longrightarrow> set cs \<subseteq> set (parkedBlocks bp)"
  by (induction bp "c # cs" arbitrary: c cs rule: linked.induct)
     (auto split: option.splits dest: parked_member)

lemma linked_delete:
  "linked bp cs \<Longrightarrow> \<forall>c \<in> set (butlast cs). Hash c \<noteq> k \<Longrightarrow> linked (AList.delete k bp) cs"
  by (induction bp cs rule: linked.induct) (auto simp: delete_conv' split: option.splits)




lemma admittedBy_same [simp]: "admittedBy rm rm = []"
  by (simp add: admittedBy_def)



































lemmas eval_defs =
  AddBlock_def attachBody_def addHash_def dumpReadyBlocks_def dumpStep_def chainAddBlock_def
  FindBlock_def NewRequestManager_def mkExtended_def mkBlock_def mkHeader_def Hash_def
  NewPendingBlock_def unionLoop.simps emptySlice_def parkUnder_def Let_def









subsection \<open>Promotion or parking in AddBlock\<close>

lemma parkUnder_has: "Hash b \<in> Hash ` set (parkUnder b l)"
proof (cases "\<exists>child \<in> set l. Hash child = Hash b")
  case True
  then obtain child where "child \<in> set l" and "Hash child = Hash b" by blast
  with imageI [of child "set l" Hash] show ?thesis by (simp add: parkUnder_def)
next
  case False
  then show ?thesis by (simp add: parkUnder_def)
qed

lemma parkUnder_distinct: "distinct (map Hash l) \<Longrightarrow> distinct (map Hash (parkUnder b l))"
  by (auto simp: parkUnder_def)

lemma outOfOrder_fields:
  "chain outOfOrder = [(10, mkExtended False (mkBlock 10 9 1))]"
  "pendingBlocksByParent outOfOrder = [(12, [mkBlock 13 12 4]), (11, [mkBlock 12 11 3])]"
  "pendingBlocksByHash outOfOrder = [(13, 0), (12, 1)]"
  "pendingBlocks outOfOrder = [0, 1]"
  "trace outOfOrder = []"
  by (simp_all add: outOfOrder_def eval_defs)

lemma outOfOrder_attach:
  "attachBody (\<lambda>txs. 0) 0 (mkBlock 11 10 2) outOfOrder
     = (True, snd (attachBody (\<lambda>txs. 0) 0 (mkBlock 11 10 2) outOfOrder))"
  by (simp add: attachBody_def outOfOrder_fields addHash_def unionLoop.simps emptySlice_def
        FindBlock_def Hash_def mkBlock_def mkHeader_def mkExtended_def NewPendingBlock_def
        update_conv' Let_def)

text \<open>
  C3, as amended. For a call \<open>AddBlock(b)\<close> whose body passes the check of the
  transaction root (or has no header attached), promotion is invoked if and only if
  the parent hash is in the chain store, pending or not. Otherwise nothing is admitted
  or passed down and \<open>b\<close> is parked under its parent: the list there contains the hash
  of \<open>b\<close>, and has no hash twice if it had none twice before; the other parent entries
  stay as they are.
\<close>

theorem AddBlock_promotes_iff_parent_stored:
  assumes "attachBody CalculateRootHash now b rm = (True, rm2)"
  shows "(FindBlock (chain rm) (Parent (bheader b)) \<noteq> None \<longrightarrow>
            AddBlock CalculateRootHash now b rm = dumpReadyBlocks b rm2) \<and>
         (FindBlock (chain rm) (Parent (bheader b)) = None \<longrightarrow>
            (\<exists>l. map_of (pendingBlocksByParent (AddBlock CalculateRootHash now b rm)) (Parent (bheader b))
                   = Some l \<and>
                 l = parkUnder b (case map_of (pendingBlocksByParent rm) (Parent (bheader b)) of
                                    None \<Rightarrow> [] | Some bs \<Rightarrow> bs) \<and>
                 Hash b \<in> Hash ` set l \<and>
                 (distinct (map Hash (case map_of (pendingBlocksByParent rm) (Parent (bheader b)) of
                                        None \<Rightarrow> [] | Some bs \<Rightarrow> bs)) \<longrightarrow> distinct (map Hash l))) \<and>
            (\<forall>k. k \<noteq> Parent (bheader b) \<longrightarrow>
                 map_of (pendingBlocksByParent (AddBlock CalculateRootHash now b rm)) k
                   = map_of (pendingBlocksByParent rm) k) \<and>
            trace (AddBlock CalculateRootHash now b rm) = trace rm \<and>
            chain (AddBlock CalculateRootHash now b rm) = chain rm)"
proof (intro conjI impI)
  note fr = attachBody_frame [OF assms]
  assume "FindBlock (chain rm) (Parent (bheader b)) \<noteq> None"
  with assms fr(1) show "AddBlock CalculateRootHash now b rm = dumpReadyBlocks b rm2"
    by (auto simp: AddBlock_def split: option.splits)
next
  note fr = attachBody_frame [OF assms]
  assume n: "FindBlock (chain rm) (Parent (bheader b)) = None"
  let ?old = "case map_of (pendingBlocksByParent rm) (Parent (bheader b)) of None \<Rightarrow> [] | Some bs \<Rightarrow> bs"
  from assms n fr have eq: "AddBlock CalculateRootHash now b rm =
      rm2\<lparr>pendingBlocksByParent :=
            AList.update (Parent (bheader b)) (parkUnder b ?old) (pendingBlocksByParent rm)\<rparr>"
    by (simp add: AddBlock_def)
  show "\<exists>l. map_of (pendingBlocksByParent (AddBlock CalculateRootHash now b rm)) (Parent (bheader b))
                   = Some l \<and> l = parkUnder b ?old \<and> Hash b \<in> Hash ` set l \<and>
                 (distinct (map Hash ?old) \<longrightarrow> distinct (map Hash l))"
    unfolding eq using parkUnder_has [of b ?old] parkUnder_distinct [of ?old b] by (simp add: update_conv')
  show "\<forall>k. k \<noteq> Parent (bheader b) \<longrightarrow>
                 map_of (pendingBlocksByParent (AddBlock CalculateRootHash now b rm)) k
                   = map_of (pendingBlocksByParent rm) k"
    unfolding eq by (simp add: update_conv')
  show "trace (AddBlock CalculateRootHash now b rm) = trace rm"
    unfolding eq using fr(3) by simp
  show "chain (AddBlock CalculateRootHash now b rm) = chain rm"
    unfolding eq using fr(1) by simp
qed

theorem AddBlock_promotes_iff_parent_stored_witness:
  "attachBody (\<lambda>txs. 0) 0 (mkBlock 11 10 2) outOfOrder
     = (True, snd (attachBody (\<lambda>txs. 0) 0 (mkBlock 11 10 2) outOfOrder)) \<and>
   FindBlock (chain outOfOrder) (Parent (bheader (mkBlock 11 10 2))) \<noteq> None \<and>
   AddBlock (\<lambda>txs. 0) 0 (mkBlock 11 10 2) outOfOrder
     = dumpReadyBlocks (mkBlock 11 10 2) (snd (attachBody (\<lambda>txs. 0) 0 (mkBlock 11 10 2) outOfOrder))"
proof -
  have h2: "FindBlock (chain outOfOrder) (Parent (bheader (mkBlock 11 10 2))) \<noteq> None"
    by (simp add: outOfOrder_fields FindBlock_def mkBlock_def mkHeader_def)
  from AddBlock_promotes_iff_parent_stored [OF outOfOrder_attach] outOfOrder_attach h2
  show ?thesis by blast
qed

text \<open>
  C3, counterexample. The parent 10 of block 11 is in the chain store and marked
  pending: \<open>AddBlock\<close> of block 11 promotes it, and parks nothing.
\<close>

theorem AddBlock_promotes_under_pending_parent:
  "map_option IsPending (FindBlock pendingParentStore (Parent (bheader (mkBlock 11 10 2)))) = Some True \<and>
   trace (AddBlock (\<lambda>txs. 0) 0 (mkBlock 11 10 2) (NewRequestManager pendingParentStore))
     = [ChainAddBlock (mkBlock 11 10 2), PassdownMessage (mkBlock 11 10 2)] \<and>
   pendingBlocksByParent (AddBlock (\<lambda>txs. 0) 0 (mkBlock 11 10 2) (NewRequestManager pendingParentStore))
     = []"
  by (simp add: pendingParentStore_def eval_defs)

end
